theory Spec2Isabelle
  imports Main "HOL-Library.Sublist" "HOL-Library.Word"
begin

section \<open>Strings and the two regular expressions of main.go\<close>

text \<open>
  Go strings are byte sequences; they are modelled as \<open>string\<close> (a list of bytes).
  The three bytes the regular expressions and templates of the program treat specially:
\<close>

abbreviation dquote :: char where "dquote \<equiv> CHR 0x22"
abbreviation newline :: char where "newline \<equiv> CHR 0x0A"
abbreviation dollar :: char where "dollar \<equiv> CHR ''$''"

subsection \<open>strings.Replace with n = 1\<close>

text \<open>
  \<^verbatim>\<open>strings.Replace(s, old, new, 1)\<close>: the first (leftmost) occurrence of \<open>old\<close> in
  \<open>s\<close> is replaced by \<open>new\<close>; a string without an occurrence is returned as it is.
\<close>

fun strings_Replace1 :: "string \<Rightarrow> string \<Rightarrow> string \<Rightarrow> string" where
  "strings_Replace1 [] old new = (if old = [] then new else [])"
| "strings_Replace1 (c # cs) old new =
     (if prefix old (c # cs) then new @ drop (length old) (c # cs)
      else c # strings_Replace1 cs old new)"

subsection \<open>Replacement templates: regexp.Expand\<close>

text \<open>
  \<^verbatim>\<open>Regexp.ReplaceAllString(src, repl)\<close> does not insert \<open>repl\<close> literally: it expands it as
  a template (\<^verbatim>\<open>Regexp.expand\<close> of the Go library). In the template \<^verbatim>\<open>$name\<close> and
  \<^verbatim>\<open>${name}\<close> stand for a submatch, the name being the longest run of letters, digits and
  underscores; a numeric name is the index of a submatch, any other name a named group;
  a reference to a group the expression does not have is replaced by the empty string;
  \<^verbatim>\<open>$$\<close> is a literal dollar sign; a dollar sign followed by no name stays as it is.

  \<open>extract_name\<close> is the library's function \<^verbatim>\<open>extract\<close>, on the text after the dollar
  sign: the name, its number (\<open>None\<close> for Go's \<open>-1\<close>) and the rest of the template.
  The library reads the name with \<^verbatim>\<open>unicode.IsLetter\<close> and \<^verbatim>\<open>unicode.IsDigit\<close>; the model
  knows the ASCII letters and digits only, so it is exact for every template whose dollar
  signs are followed by ASCII text, and for every template without a dollar sign.
\<close>

definition is_name_char :: "char \<Rightarrow> bool" where
  "is_name_char c =
     (c \<in> set ''abcdefghijklmnopqrstuvwxyzABCDEFGHIJKLMNOPQRSTUVWXYZ0123456789_'')"

fun parse_num :: "nat \<Rightarrow> string \<Rightarrow> nat option" where
  "parse_num num [] = Some num"
| "parse_num num (c # cs) =
     (if c \<notin> set ''0123456789'' \<or> num \<ge> 100000000 then None
      else parse_num (num * 10 + (of_char c - 48)) cs)"

definition extract_name :: "string \<Rightarrow> (string \<times> nat option \<times> string) option" where
  "extract_name str0 =
     (if str0 = [] then None
      else
        let brace = (hd str0 = CHR 0x7B);
            str = (if brace then tl str0 else str0);
            name = takeWhile is_name_char str;
            after_name = dropWhile is_name_char str
        in if name = [] then None
           else if brace \<and> (after_name = [] \<or> hd after_name \<noteq> CHR 0x7D) then None
           else Some (name,
                      (if hd name = CHR ''0'' \<and> length name > 1 then None
                       else parse_num 0 name),
                      (if brace then tl after_name else after_name)))"

lemma extract_name_rest_length:
  "extract_name str0 = Some (name, num, rest) \<Longrightarrow> length rest \<le> length str0"
proof -
  have dw: "length (dropWhile is_name_char xs) \<le> length xs" for xs
    by (induction xs) auto
  assume "extract_name str0 = Some (name, num, rest)"
  then show ?thesis
    using dw [of str0] dw [of "tl str0"]
    by (auto simp: extract_name_def Let_def split: if_splits)
qed

text \<open>
  \<open>expand gs template\<close>: the template expanded at a match whose submatches are \<open>gs\<close>
  (\<open>gs ! 0\<close> the whole match, \<open>gs ! 1\<close> the first group, ...). Neither expression of
  the program has a named group, so a name that is not a number expands to nothing.
\<close>

function expand :: "string list \<Rightarrow> string \<Rightarrow> string" where
  "expand gs template =
     (if dollar \<notin> set template then template
      else
        let before = takeWhile (\<lambda>c. c \<noteq> dollar) template;
            after = tl (dropWhile (\<lambda>c. c \<noteq> dollar) template)
        in if after \<noteq> [] \<and> hd after = dollar then before @ [dollar] @ expand gs (tl after)
           else (case extract_name after of
                   None \<Rightarrow> before @ [dollar] @ expand gs after
                 | Some (name, num, rest) \<Rightarrow>
                     before
                     @ (case num of
                          Some n \<Rightarrow> (if n < length gs then gs ! n else [])
                        | None \<Rightarrow> [])
                     @ expand gs rest))"
  by pat_completeness auto
termination
proof (relation "measure (\<lambda>(gs, template). length template)")
  show "wf (measure (\<lambda>(gs, template). length template))" by simp
next
  fix gs :: "string list" and template before after :: string
  assume d: "\<not> dollar \<notin> set template"
    and a: "after = tl (dropWhile (\<lambda>c. c \<noteq> dollar) template)"
  have ne: "dropWhile (\<lambda>c. c \<noteq> dollar) template \<noteq> []"
    using d by simp
  have le: "length (dropWhile (\<lambda>c. c \<noteq> dollar) template) \<le> length template"
    by (rule length_dropWhile_le)
  have lt: "length after < length template"
    using ne le a by (cases "dropWhile (\<lambda>c. c \<noteq> dollar) template") auto
  show "((gs, tl after), (gs, template)) \<in> measure (\<lambda>(gs, template). length template)"
    if "after \<noteq> [] \<and> hd after = dollar"
    using lt that by (cases after) auto
  show "((gs, after), (gs, template)) \<in> measure (\<lambda>(gs, template). length template)"
    using lt by simp
  show "((gs, rest), (gs, template)) \<in> measure (\<lambda>(gs, template). length template)"
    if "extract_name after = Some x2" and "(name, y) = x2" and "(num, rest) = y"
    for x2 name y num rest
    using lt extract_name_rest_length [of after name num rest] that by auto
qed

declare expand.simps [simp del]

lemma expand_no_dollar: "dollar \<notin> set template \<Longrightarrow> expand gs template = template"
  by (subst expand.simps) simp

subsection \<open>The expression \<^verbatim>\<open>^/v2/\<close>\<close>

text \<open>
  \<^verbatim>\<open>re = regexp.MustCompile(`^/v2/`)\<close> has no group and is anchored at the start of the
  text, so \<^verbatim>\<open>re.ReplaceAllString(src, repl)\<close> replaces at most one match, the first four
  bytes of \<open>src\<close>, by the expansion of \<open>repl\<close> at that match.
\<close>

definition re_ReplaceAllString :: "string \<Rightarrow> string \<Rightarrow> string" where
  "re_ReplaceAllString src repl =
     (if prefix ''/v2/'' src then expand [''/v2/''] repl @ drop 4 src else src)"

subsection \<open>The expression \<^verbatim>\<open>realm="(.*?)"\<close>\<close>

text \<open>
  \<^verbatim>\<open>realm = regexp.MustCompile(`realm="(.*?)"`)\<close>. A dot matches every character but a
  line feed and the star is lazy, so a match that starts at a given place is the literal
  \<^verbatim>\<open>realm="\<close>, then the shortest run of bytes other than a line feed, then the next double
  quote. \<open>quoted_value\<close> reads that run and the quote that closes it (the group and the
  text after the match); \<open>realm_match_here\<close> is a match at the start of the text;
  \<open>realm_find\<close> is the leftmost match (\<^verbatim>\<open>FindStringSubmatch\<close>): the text before it, its
  group and the text after it.
\<close>

definition realm_open :: string where
  "realm_open = ''realm='' @ [dquote]"

fun quoted_value :: "string \<Rightarrow> (string \<times> string) option" where
  "quoted_value [] = None"
| "quoted_value (c # cs) =
     (if c = dquote then Some ([], cs)
      else if c = newline then None
      else map_option (\<lambda>(g, r). (c # g, r)) (quoted_value cs))"

definition realm_match_here :: "string \<Rightarrow> (string \<times> string) option" where
  "realm_match_here s =
     (if prefix realm_open s then quoted_value (drop (length realm_open) s) else None)"

fun realm_find :: "string \<Rightarrow> (string \<times> string \<times> string) option" where
  "realm_find [] = None"
| "realm_find (c # cs) =
     (case realm_match_here (c # cs) of
        Some (g, r) \<Rightarrow> Some ([], g, r)
      | None \<Rightarrow> map_option (\<lambda>(p, g, r). (c # p, g, r)) (realm_find cs))"

lemma quoted_value_rest_length:
  "quoted_value s = Some (g, r) \<Longrightarrow> length r < length s"
  by (induction s arbitrary: g) (auto split: if_splits)

lemma realm_match_here_rest_length:
  "realm_match_here s = Some (g, r) \<Longrightarrow> length r < length s"
  by (auto simp: realm_match_here_def split: if_splits dest!: quoted_value_rest_length)

lemma realm_find_rest_length:
  "realm_find s = Some (p, g, r) \<Longrightarrow> length r < length s"
proof (induction s arbitrary: p)
  case Nil
  then show ?case by simp
next
  case (Cons c cs)
  show ?case
  proof (cases "realm_match_here (c # cs)")
    case None
    with Cons.prems obtain p' where "realm_find cs = Some (p', g, r)"
      by auto
    with Cons.IH show ?thesis by fastforce
  next
    case (Some m)
    with Cons.prems have "realm_match_here (c # cs) = Some (g, r)"
      by (cases m) auto
    then show ?thesis by (rule realm_match_here_rest_length)
  qed
qed

text \<open>
  \<^verbatim>\<open>realm.ReplaceAllString(src, repl)\<close>: every match, found from left to right, each
  search starting where the match before it ended, is replaced by the expansion of
  \<open>repl\<close> at that match (submatch 0 the whole match, submatch 1 the group).
\<close>

function realm_ReplaceAllString :: "string \<Rightarrow> string \<Rightarrow> string" where
  "realm_ReplaceAllString src repl =
     (case realm_find src of
        None \<Rightarrow> src
      | Some (before, g, rest) \<Rightarrow>
          before @ expand [realm_open @ g @ [dquote], g] repl @ realm_ReplaceAllString rest repl)"
  by pat_completeness auto
termination
  by (relation "measure (\<lambda>(src, repl). length src)") (auto dest: realm_find_rest_length)

declare realm_ReplaceAllString.simps [simp del]

section \<open>Requests, responses and configuration\<close>

text \<open>
  \<^verbatim>\<open>url.URL\<close> with the fields the program reads or writes, \<^verbatim>\<open>http.Header\<close> as a map from
  keys to the list of their values, and \<^verbatim>\<open>http.Request\<close> with its \<open>Host\<close>, its URL, its
  header and the value the context holds under \<^verbatim>\<open>ctxKeyOriginalHost\<close> (\<open>None\<close> when
  the context has none).

  \<^verbatim>\<open>Header.Get\<close> and \<^verbatim>\<open>Header.Set\<close> bring their key into canonical form first
  (\<^verbatim>\<open>"www-authenticate"\<close> is \<^verbatim>\<open>"Www-Authenticate"\<close>, \<^verbatim>\<open>"user-agent"\<close> is \<^verbatim>\<open>"User-Agent"\<close>,
  \<^verbatim>\<open>"accept"\<close> is \<^verbatim>\<open>"Accept"\<close>); the model writes the keys of the program in that form.
  \<open>Get\<close> returns the first value of the key, and the empty string when there is none;
  \<open>Set\<close> replaces all values of the key by one.
\<close>

record url =
  url_Scheme :: string
  url_Host :: string
  url_Path :: string
  url_RawQuery :: string

type_synonym header = "string \<rightharpoonup> string list"

definition header_Get :: "header \<Rightarrow> string \<Rightarrow> string" where
  "header_Get h key = (case h key of None \<Rightarrow> [] | Some [] \<Rightarrow> [] | Some (v # vs) \<Rightarrow> v)"

definition header_Set :: "header \<Rightarrow> string \<Rightarrow> string \<Rightarrow> header" where
  "header_Set h key v = h(key \<mapsto> [v])"

record request =
  req_Host :: string
  req_URL :: url
  req_Header :: header
  req_ctxOriginalHost :: "string option"

record response =
  resp_StatusCode :: int
  resp_Header :: header

record registryConfig =
  host :: string
  repoPrefix :: string

text \<open>\<^verbatim>\<open>captureHostHeader\<close>: the middleware stores the request's Host in its context.\<close>

definition captureHostHeader :: "request \<Rightarrow> request" where
  "captureHostHeader req = req\<lparr>req_ctxOriginalHost := Some (req_Host req)\<rparr>"

section \<open>The registry path rewriter\<close>

text \<open>
  \<^verbatim>\<open>rewriteRegistryV2URL\<close> (main.go, lines 204 to 215): the director of the registry proxy.
  \<^verbatim>\<open>fmt.Sprintf("/v2/%s/", c.repoPrefix)\<close> is the replacement template.
\<close>

definition rewriteRegistryV2URL :: "registryConfig \<Rightarrow> request \<Rightarrow> request" where
  "rewriteRegistryV2URL c req =
     (let u1 = (req_URL req)\<lparr>url_Scheme := ''https'', url_Host := host c\<rparr>;
          u2 = (if url_Path u1 \<noteq> ''/v2/''
                then u1\<lparr>url_Path :=
                        re_ReplaceAllString (url_Path u1) (''/v2/'' @ repoPrefix c @ ''/'')\<rparr>
                else u1)
      in req\<lparr>req_Host := host c, req_URL := u2\<rparr>)"

section \<open>The response realm rewriter\<close>

text \<open>
  \<^verbatim>\<open>updateTokenEndpoint\<close> (lines 251 to 258). \<open>realm_template h\<close> is the replacement
  template \<^verbatim>\<open>fmt.Sprintf(`realm="%s"`, cur)\<close> with
  \<^verbatim>\<open>cur = fmt.Sprintf("https://%s/_token", host)\<close>.
\<close>

definition realm_template :: "string \<Rightarrow> string" where
  "realm_template h = realm_open @ (''https://'' @ h @ ''/_token'') @ [dquote]"

definition updateTokenEndpoint :: "response \<Rightarrow> string \<Rightarrow> response" where
  "updateTokenEndpoint resp h =
     (let v = header_Get (resp_Header resp) ''Www-Authenticate'' in
      if v = [] then resp
      else resp\<lparr>resp_Header :=
             header_Set (resp_Header resp) ''Www-Authenticate''
               (realm_ReplaceAllString v (realm_template h))\<rparr>)"

section \<open>Authenticators\<close>

text \<open>
  The interface \<^verbatim>\<open>authenticator\<close> has two implementations: \<^verbatim>\<open>authHeader\<close>, a fixed
  string, and \<^verbatim>\<open>*metadataServerAuth\<close>. A nil interface value is \<open>None\<close> of
  \<open>authenticator option\<close>.

  Go's \<open>int\<close> (64 bits wide on a 64-bit platform, which the model assumes) and
  \<^verbatim>\<open>time.Duration\<close> (an \<open>int64\<close> of nanoseconds) are 64-bit words read as signed
  numbers (\<open>sint\<close>); their arithmetic wraps around. \<open>timer\<close> is the field \<open>t\<close>:
  the duration the timer was created with, \<open>None\<close> before the first \<^verbatim>\<open>updateToken\<close>.
\<close>

record metadataServerAuth =
  authToken :: string
  ExpiresIn :: "64 word"
  timer :: "64 word option"

datatype authenticator = AuthHeaderOf string | MetadataServerAuth metadataServerAuth

fun AuthHeader :: "authenticator \<Rightarrow> string" where
  "AuthHeader (AuthHeaderOf b) = b"
| "AuthHeader (MetadataServerAuth m) = authToken m"

definition time_Second :: "64 word" where
  "time_Second = 1000000000"

definition time_Minute :: "64 word" where
  "time_Minute = 60 * time_Second"

text \<open>
  \<^verbatim>\<open>updateToken\<close> (lines 287 to 298). \<open>got\<close> is what \<^verbatim>\<open>getAuthToken("metadata")\<close> returned:
  the header value and \<^verbatim>\<open>expires_in\<close>, or \<open>None\<close> for a failure; every failure ends the
  process (\<^verbatim>\<open>log.Fatalf\<close>), which is the result \<open>None\<close>.
\<close>

definition updateToken ::
  "(string \<times> 64 word) option \<Rightarrow> metadataServerAuth \<Rightarrow> metadataServerAuth option" where
  "updateToken got m =
     (case got of
        None \<Rightarrow> None
      | Some (authToken', expiresIn) \<Rightarrow>
          Some (m\<lparr>authToken := authToken', ExpiresIn := expiresIn,
                  timer := Some (expiresIn * time_Second - 5 * time_Minute)\<rparr>))"

text \<open>\<^verbatim>\<open>Init\<close>: the first \<^verbatim>\<open>updateToken\<close>, on the zero value of the struct.\<close>

definition Init :: "(string \<times> 64 word) option \<Rightarrow> metadataServerAuth option" where
  "Init got = updateToken got \<lparr>authToken = [], ExpiresIn = 0, timer = None\<rparr>"

text \<open>
  \<^verbatim>\<open>updateTokenTimer\<close>: each time the timer fires, \<^verbatim>\<open>updateToken\<close> runs again. One turn
  of its loop, given what the metadata server returned:
\<close>

definition updateTokenTimer_step ::
  "(string \<times> 64 word) option \<Rightarrow> metadataServerAuth \<Rightarrow> metadataServerAuth option" where
  "updateTokenTimer_step got m = updateToken got m"

text \<open>
  \<^verbatim>\<open>time.NewTimer(d)\<close> sends on the timer's channel once the duration \<open>d\<close> has passed; a
  timer created with a duration that is zero or negative fires at once. \<open>fires_after d\<close>
  is the time, in nanoseconds from its creation, after which a timer created with \<open>d\<close>
  fires.
\<close>

definition fires_after :: "64 word \<Rightarrow> int" where
  "fires_after d = (if sint d \<le> 0 then 0 else sint d)"

section \<open>The registry round tripper\<close>

text \<open>
  \<^verbatim>\<open>registryRoundtripper.RoundTrip\<close> (lines 221 to 245). \<open>RoundTrip_outbound\<close> is its first
  part, up to the call of the transport: the original host read from the context and the
  request as the transport receives it. The type assertion \<^verbatim>\<open>.(string)\<close> panics on a
  context without the value. \<open>transport\<close> stands for \<^verbatim>\<open>http.DefaultTransport.RoundTrip\<close>.
\<close>

datatype roundtrip_error = PanicNoOriginalHost | TransportError string

definition RoundTrip_outbound ::
  "authenticator option \<Rightarrow> request \<Rightarrow> roundtrip_error + (string \<times> request)" where
  "RoundTrip_outbound auth req =
     (let req1 = (case auth of
                    None \<Rightarrow> req
                  | Some a \<Rightarrow>
                      req\<lparr>req_Header := header_Set (req_Header req) ''Authorization'' (AuthHeader a)\<rparr>)
      in case req_ctxOriginalHost req1 of
           None \<Rightarrow> Inl PanicNoOriginalHost
         | Some origHost \<Rightarrow>
             let ua = header_Get (req_Header req1) ''User-Agent'';
                 req2 = (if ua \<noteq> []
                         then req1\<lparr>req_Header :=
                                header_Set (req_Header req1) ''User-Agent''
                                  (''gcr-proxy/0.1 customDomain/'' @ origHost @ '' '' @ ua)\<rparr>
                         else req1);
                 req3 = req2\<lparr>req_Header := header_Set (req_Header req2) ''Accept'' ''*/*''\<rparr>
             in Inr (origHost, req3))"

definition RoundTrip ::
  "authenticator option \<Rightarrow> (request \<Rightarrow> string + response) \<Rightarrow> request
     \<Rightarrow> roundtrip_error + response" where
  "RoundTrip auth transport req =
     (case RoundTrip_outbound auth req of
        Inl e \<Rightarrow> Inl e
      | Inr (origHost, out) \<Rightarrow>
          (case transport out of
             Inl err \<Rightarrow> Inl (TransportError err)
           | Inr resp \<Rightarrow> Inr (updateTokenEndpoint resp origHost)))"

section \<open>The token proxy\<close>

text \<open>
  \<^verbatim>\<open>url.Values\<close> is a map from parameter names to the list of their values; \<^verbatim>\<open>Get\<close>
  returns the first value of a name, or the empty string, and \<^verbatim>\<open>Set\<close> replaces its values
  by one.
\<close>

type_synonym url_Values = "string \<rightharpoonup> string list"

definition values_Get :: "url_Values \<Rightarrow> string \<Rightarrow> string" where
  "values_Get q key = (case q key of None \<Rightarrow> [] | Some [] \<Rightarrow> [] | Some (v # vs) \<Rightarrow> v)"

definition values_Set :: "url_Values \<Rightarrow> string \<Rightarrow> string \<Rightarrow> url_Values" where
  "values_Set q key v = q(key \<mapsto> [v])"

text \<open>
  The director of \<^verbatim>\<open>tokenProxyHandler\<close> (lines 154 to 173). Three functions of Go's
  \<^verbatim>\<open>net/url\<close> are parameters of the model, so that what is proved holds whatever they
  compute: \<open>url_Query\<close> parses a raw query (\<^verbatim>\<open>r.URL.Query()\<close>), \<open>values_Encode\<close> writes
  one (\<^verbatim>\<open>q.Encode()\<close>), \<open>url_Parse\<close> parses the token endpoint, \<open>None\<close> being its
  error. The program drops that error (\<^verbatim>\<open>u, _ := url.Parse(tokenEndpoint)\<close>) and writes
  through the nil pointer it got, which panics.
\<close>

datatype director_error = PanicNilURL

definition tokenProxyHandler ::
  "(string \<Rightarrow> url_Values) \<Rightarrow> (url_Values \<Rightarrow> string) \<Rightarrow> (string \<Rightarrow> url option)
     \<Rightarrow> string \<Rightarrow> string \<Rightarrow> request \<Rightarrow> director_error + request" where
  "tokenProxyHandler url_Query values_Encode url_Parse tokenEndpoint repoPrefix' r =
     (let q = url_Query (url_RawQuery (req_URL r));
          scope = values_Get q ''scope''
      in if scope = [] then Inr r
         else
           let newScope =
                 strings_Replace1 scope ''repository:'' (''repository:'' @ repoPrefix' @ ''/'');
               q' = values_Set q ''scope'' newScope
           in case url_Parse tokenEndpoint of
                None \<Rightarrow> Inl PanicNilURL
              | Some u \<Rightarrow>
                  let u' = u\<lparr>url_RawQuery := values_Encode q'\<rparr>
                  in Inr (r\<lparr>req_URL := u', req_Host := url_Host u'\<rparr>))"

section \<open>Discovery of the token endpoint and startup\<close>

text \<open>
  \<^verbatim>\<open>discoverTokenService\<close> (lines 124 to 139). \<open>got\<close> is what
  \<^verbatim>\<open>http.Get("https://<registryHost>/v2/")\<close> returned: an error or a response.
\<close>

abbreviation www_authenticate :: "response \<Rightarrow> string" where
  "www_authenticate resp \<equiv> header_Get (resp_Header resp) ''Www-Authenticate''"

datatype discover_error = QueryFailed string | NoHeader | NoRealm

definition discoverTokenService :: "string + response \<Rightarrow> discover_error + string" where
  "discoverTokenService got =
     (case got of
        Inl err \<Rightarrow> Inl (QueryFailed err)
      | Inr resp \<Rightarrow>
          let hdr = header_Get (resp_Header resp) ''Www-Authenticate'' in
          if hdr = [] then Inl NoHeader
          else (case realm_find hdr of
                  None \<Rightarrow> Inl NoRealm
                | Some (before, g, rest) \<Rightarrow> Inr g))"

text \<open>
  \<^verbatim>\<open>getAuthData\<close> (lines 105 to 122). \<open>env\<close> is \<^verbatim>\<open>os.Getenv\<close> (the empty string for a
  variable that is not set), \<open>metadata\<close> what the metadata server answers at \<^verbatim>\<open>Init\<close>,
  \<open>readFile\<close> is \<^verbatim>\<open>ioutil.ReadFile\<close> and \<open>base64\<close> the standard encoding. Every
  \<^verbatim>\<open>log.Fatal\<close> is a value of \<open>fatal\<close>.
\<close>

datatype fatal =
    NoPort | NoRegistryHost | NoRepoPrefix
  | DiscoveryFailed discover_error
  | NoMetadataToken | KeyFileUnreadable

definition getAuthData ::
  "(string \<Rightarrow> string) \<Rightarrow> (string \<times> 64 word) option \<Rightarrow> (string \<Rightarrow> string option)
     \<Rightarrow> (string \<Rightarrow> string) \<Rightarrow> authenticator option \<Rightarrow> fatal + authenticator option" where
  "getAuthData env metadata readFile base64 auth =
     (if env ''USE_METADATA_SERVER'' \<noteq> [] then
        (case Init metadata of
           None \<Rightarrow> Inl NoMetadataToken
         | Some m \<Rightarrow> Inr (Some (MetadataServerAuth m)))
      else if env ''AUTH_HEADER'' \<noteq> [] then Inr (Some (AuthHeaderOf (env ''AUTH_HEADER'')))
      else if env ''GOOGLE_APPLICATION_CREDENTIALS'' \<noteq> [] then
        (case readFile (env ''GOOGLE_APPLICATION_CREDENTIALS'') of
           None \<Rightarrow> Inl KeyFileUnreadable
         | Some b \<Rightarrow> Inr (Some (AuthHeaderOf (''Basic '' @ base64 (''_json_key:'' @ b)))))
      else Inr auth)"

text \<open>
  \<^verbatim>\<open>main\<close> (lines 50 to 103) up to the call that starts to listen: either the process
  has ended with \<^verbatim>\<open>log.Fatal\<close>, or the server is set up, with its address, its routes
  (\<open>srv_browserRedirects\<close> for \<open>/\<close>, \<open>srv_tokenProxy\<close> the token endpoint of the route
  \<open>/_token\<close>, which is only registered for an endpoint that is not empty, and the
  registry proxy on \<open>/v2/\<close> with \<open>srv_reg\<close> and \<open>srv_auth\<close>) and whether it serves TLS.
  \<open>http_Get\<close> is \<^verbatim>\<open>http.Get\<close>.
\<close>

record server =
  srv_addr :: string
  srv_browserRedirects :: bool
  srv_tokenProxy :: "string option"
  srv_reg :: registryConfig
  srv_auth :: "authenticator option"
  srv_tls :: bool

definition main ::
  "(string \<Rightarrow> string) \<Rightarrow> (string \<Rightarrow> string + response) \<Rightarrow> (string \<times> 64 word) option
     \<Rightarrow> (string \<Rightarrow> string option) \<Rightarrow> (string \<Rightarrow> string) \<Rightarrow> fatal + server" where
  "main env http_Get metadata readFile base64 =
     (let port = env ''PORT'' in
      if port = [] then Inl NoPort
      else
        let browserRedirects = (env ''DISABLE_BROWSER_REDIRECTS'' = []);
            registryHost = env ''REGISTRY_HOST''
        in if registryHost = [] then Inl NoRegistryHost
           else
             let repoPrefix' = env ''REPO_PREFIX'' in
             if repoPrefix' = [] then Inl NoRepoPrefix
             else
               let reg = \<lparr>host = registryHost, repoPrefix = repoPrefix'\<rparr> in
               case discoverTokenService (http_Get (''https://'' @ host reg @ ''/v2/'')) of
                 Inl err \<Rightarrow> Inl (DiscoveryFailed err)
               | Inr tokenEndpoint \<Rightarrow>
                   (case getAuthData env metadata readFile base64 None of
                      Inl f \<Rightarrow> Inl f
                    | Inr auth \<Rightarrow>
                        Inr \<lparr>srv_addr = '':'' @ port,
                             srv_browserRedirects = browserRedirects,
                             srv_tokenProxy =
                               (if tokenEndpoint \<noteq> [] then Some tokenEndpoint else None),
                             srv_reg = reg,
                             srv_auth = auth,
                             srv_tls = (env ''TLS_CERT'' \<noteq> [] \<and> env ''TLS_KEY'' \<noteq> [])\<rparr>))"

section \<open>Sample inputs\<close>

text \<open>
  Concrete values at which the theorems below are instantiated: a request as the server
  hands it to the handlers, and values of the \<^verbatim>\<open>net/url\<close> parameters of the token proxy
  on the sample queries.
\<close>

definition sample_request :: "string \<Rightarrow> string \<Rightarrow> string \<Rightarrow> request" where
  "sample_request path query ua =
     \<lparr>req_Host = ''myproxy.example.org'',
      req_URL = \<lparr>url_Scheme = [], url_Host = [], url_Path = path, url_RawQuery = query\<rparr>,
      req_Header = (if ua = [] then Map.empty else [''User-Agent'' \<mapsto> [ua]]),
      req_ctxOriginalHost = Some ''myproxy.example.org''\<rparr>"

definition sample_Query :: "string \<Rightarrow> url_Values" where
  "sample_Query raw =
     (if raw = ''scope=&service=gcr.io'' then [''scope'' \<mapsto> [[]], ''service'' \<mapsto> [''gcr.io'']]
      else if raw = ''service=gcr.io'' then [''service'' \<mapsto> [''gcr.io'']]
      else if raw = ''scope=repository:foo/bar:pull''
        then [''scope'' \<mapsto> [''repository:foo/bar:pull'']]
      else Map.empty)"

definition sample_Encode :: "url_Values \<Rightarrow> string" where
  "sample_Encode q = ''scope='' @ values_Get q ''scope''"

definition sample_Parse :: "string \<Rightarrow> url option" where
  "sample_Parse s =
     (if s = ''https://auth.example.com/token''
      then Some \<lparr>url_Scheme = ''https'', url_Host = ''auth.example.com'',
                 url_Path = ''/token'', url_RawQuery = []\<rparr>
      else None)"

definition sample_env :: "string \<Rightarrow> string" where
  "sample_env name =
     (if name = ''PORT'' then ''8080''
      else if name = ''REGISTRY_HOST'' then ''gcr.io''
      else if name = ''REPO_PREFIX'' then ''myproject''
      else [])"

definition sample_response :: "string list option \<Rightarrow> response" where
  "sample_response challenge =
     \<lparr>resp_StatusCode = 401,
      resp_Header = (case challenge of None \<Rightarrow> Map.empty | Some vs \<Rightarrow> [''Www-Authenticate'' \<mapsto> vs])\<rparr>"

definition sample_challenge :: string where
  "sample_challenge =
     ''Bearer realm='' @ [dquote] @ ''https://auth.example.com/token'' @ [dquote]
     @ '',service='' @ [dquote] @ ''r'' @ [dquote]"

section \<open>Properties\<close>

subsection \<open>The token proxy and an empty scope\<close>

text \<open>
  C10. A token request whose \<open>scope\<close> parameter is present with an empty value (\<open>r\<close>) is
  treated as one without a \<open>scope\<close> parameter (\<open>r0\<close>): for both the director returns
  early, and the request is as it was: no scope, target URL or host is rewritten.
\<close>

theorem empty_scope_returns_early:
  assumes "url_Query (url_RawQuery (req_URL r)) ''scope'' = Some ([] # vs)"
      and "url_Query (url_RawQuery (req_URL r0)) ''scope'' = None"
  shows "tokenProxyHandler url_Query values_Encode url_Parse tokenEndpoint prefix' r = Inr r
       \<and> tokenProxyHandler url_Query values_Encode url_Parse tokenEndpoint prefix' r0 = Inr r0"
  using assms by (simp add: tokenProxyHandler_def values_Get_def)

theorem empty_scope_returns_early_witness:
  "sample_Query (url_RawQuery (req_URL (sample_request ''/_token'' ''scope=&service=gcr.io'' [])))
       ''scope'' = Some ([] # [])
   \<and> sample_Query (url_RawQuery (req_URL (sample_request ''/_token'' ''service=gcr.io'' [])))
       ''scope'' = None
   \<and> tokenProxyHandler sample_Query sample_Encode sample_Parse
         ''https://auth.example.com/token'' ''myproject''
         (sample_request ''/_token'' ''scope=&service=gcr.io'' [])
       = Inr (sample_request ''/_token'' ''scope=&service=gcr.io'' [])
   \<and> tokenProxyHandler sample_Query sample_Encode sample_Parse
         ''https://auth.example.com/token'' ''myproject''
         (sample_request ''/_token'' ''service=gcr.io'' [])
       = Inr (sample_request ''/_token'' ''service=gcr.io'' [])"
proof -
  have a: "sample_Query
             (url_RawQuery (req_URL (sample_request ''/_token'' ''scope=&service=gcr.io'' [])))
             ''scope'' = Some ([] # [])"
    by (simp add: sample_Query_def sample_request_def)
  have b: "sample_Query
             (url_RawQuery (req_URL (sample_request ''/_token'' ''service=gcr.io'' [])))
             ''scope'' = None"
    by (simp add: sample_Query_def sample_request_def)
  from empty_scope_returns_early
         [where url_Query = sample_Query and vs = "[]"
            and r = "sample_request ''/_token'' ''scope=&service=gcr.io'' []"
            and r0 = "sample_request ''/_token'' ''service=gcr.io'' []", OF a b]
       a b
  show ?thesis
    by blast
qed

subsection \<open>The round tripper: User-Agent and Authorization\<close>





subsection \<open>The refresh timer of the metadata authenticator\<close>

lemma sint_timer:
  fixes e :: "64 word"
  assumes "- (2 ^ 63) \<le> (sint e - 300) * 1000000000"
      and "(sint e - 300) * 1000000000 < 2 ^ 63"
  shows "sint (e * time_Second - 5 * time_Minute) = (sint e - 300) * 1000000000"
proof -
  have eq: "e * time_Second - 5 * time_Minute = word_of_int ((sint e - 300) * 1000000000)"
    by (simp add: time_Second_def time_Minute_def algebra_simps)
  have "sint (word_of_int ((sint e - 300) * 1000000000) :: 64 word)
          = signed_take_bit 63 ((sint e - 300) * 1000000000)"
    by (simp only: sint_sbintrunc') simp
  also have "\<dots> = (sint e - 300) * 1000000000"
    using assms by (intro signed_take_bit_int_eq_self) simp_all
  finally show ?thesis
    by (simp only: eq)
qed

text \<open>
  C7, as stated for every \<open>expiresIn\<close>, fails at both ends. The duration of the timer
  is computed in 64-bit nanoseconds and the arithmetic wraps around: an \<open>expires_in\<close> of
  9223372337 seconds gives a negative duration, so the timer fires at once and not after
  9223372037 seconds. And a token that expires in less than 300 seconds gives a negative
  duration too: with an \<open>expires_in\<close> of 299 the timer fires at once, not one second
  before the token was fetched.
\<close>

theorem refresh_timer_overflow:
  "map_option (\<lambda>m. map_option sint (timer m)) (Init (Some (''Bearer abc'', 9223372337)))
     = Some (Some (- 9223372036709551616))
   \<and> map_option (\<lambda>m. map_option fires_after (timer m))
         (Init (Some (''Bearer abc'', 9223372337))) = Some (Some 0)
   \<and> (0 :: int) \<noteq> (9223372337 - 300) * 1000000000
   \<and> map_option (\<lambda>m. map_option sint (timer m)) (Init (Some (''Bearer abc'', 299)))
     = Some (Some (- 1000000000))
   \<and> map_option (\<lambda>m. map_option fires_after (timer m)) (Init (Some (''Bearer abc'', 299)))
     = Some (Some 0)
   \<and> (0 :: int) \<noteq> (299 - 300) * 1000000000"
  by (simp add: Init_def updateToken_def time_Second_def time_Minute_def fires_after_def)

text \<open>
  C7, amended. After every successful token fetch (the first one, from \<open>Init\<close>, or a
  refresh) that returns \<open>expiresIn\<close> seconds, with \<open>expiresIn\<close> at least 300 and
  \<open>expiresIn - 300\<close> seconds a duration of 64-bit nanoseconds (\<open>expiresIn\<close> at most
  9223372336), the token and its expiry are stored and the next refresh timer is armed
  to fire after exactly \<open>expiresIn - 300\<close> seconds, that is, 5 minutes before the
  advertised expiry; 3600 gives 3300.
\<close>

theorem refresh_timer_duration:
  fixes expiresIn :: "64 word"
  assumes "300 \<le> sint expiresIn"
      and "(sint expiresIn - 300) * 1000000000 < 2 ^ 63"
  shows "\<exists>m'. updateToken (Some (tok, expiresIn)) m = Some m'
           \<and> authToken m' = tok \<and> ExpiresIn m' = expiresIn
           \<and> map_option fires_after (timer m') = Some ((sint expiresIn - 300) * 1000000000)"
proof -
  have lower: "- (2 ^ 63) \<le> (sint expiresIn - 300) * 1000000000"
    using assms(1) by simp
  have d: "sint (expiresIn * time_Second - 5 * time_Minute)
             = (sint expiresIn - 300) * 1000000000"
    using lower assms(2) by (rule sint_timer)
  have "fires_after (expiresIn * time_Second - 5 * time_Minute)
          = (sint expiresIn - 300) * 1000000000"
    using assms(1) by (auto simp: fires_after_def d)
  then show ?thesis
    by (simp add: updateToken_def)
qed

theorem refresh_timer_duration_witness:
  "300 \<le> sint (3600 :: 64 word)
   \<and> (sint (3600 :: 64 word) - 300) * 1000000000 < 2 ^ 63
   \<and> map_option (\<lambda>m. map_option fires_after (timer m)) (Init (Some (''Bearer abc'', 3600)))
       = Some (Some (3300 * 1000000000))"
proof -
  have a: "300 \<le> sint (3600 :: 64 word)" by simp
  have b: "(sint (3600 :: 64 word) - 300) * 1000000000 < 2 ^ 63" by simp
  from refresh_timer_duration
         [OF a b, of "''Bearer abc''" "\<lparr>authToken = [], ExpiresIn = 0, timer = None\<rparr>"]
  show ?thesis using a b by (auto simp: Init_def)
qed

subsection \<open>The token proxy and the scope\<close>

lemma strings_Replace1_absent:
  "\<not> sublist old s \<Longrightarrow> strings_Replace1 s old new = s"
proof (induction s)
  case Nil
  then show ?case by auto
next
  case (Cons c cs)
  then show ?case by (auto simp: sublist_Cons_right)
qed

lemma prefix_within:
  assumes "prefix xs (ys @ zs)" and "length xs \<le> length ys"
  shows "prefix xs ys"
  using assms by (auto simp: prefix_append)

lemma strings_Replace1_first:
  assumes "old \<noteq> []" and "\<not> sublist old (a @ butlast old)"
  shows "strings_Replace1 (a @ old @ b) old new = a @ new @ b"
  using assms(2)
proof (induction a)
  case Nil
  from assms(1) obtain c cs where old: "old = c # cs" by (cases old) auto
  have "strings_Replace1 (old @ b) old new = new @ drop (length old) (old @ b)"
    unfolding old by simp
  then show ?case by simp
next
  case (Cons x a)
  have split: "(x # a) @ old @ b = ((x # a) @ butlast old) @ ([last old] @ b)"
    using assms(1) by simp
  have "\<not> prefix old ((x # a) @ old @ b)"
  proof
    assume "prefix old ((x # a) @ old @ b)"
    then have "prefix old (((x # a) @ butlast old) @ ([last old] @ b))"
      by (simp only: split)
    then have "prefix old ((x # a) @ butlast old)"
      by (rule prefix_within) simp
    then have "sublist old ((x # a) @ butlast old)"
      by (rule prefix_imp_sublist)
    with Cons.prems show False by simp
  qed
  moreover have "\<not> sublist old (a @ butlast old)"
    using Cons.prems by (simp add: sublist_Cons_right)
  ultimately show ?case
    using Cons.IH by simp
qed

text \<open>
  C3. For a token request whose \<open>scope\<close> parameter (its first value) is not empty, with
  a token endpoint that parses as the URL \<open>u\<close>: the request leaves the director with
  \<open>u\<close> as its URL and the host of \<open>u\<close> as its Host, its query being the inbound
  parameters with \<open>scope\<close> set to the one value \<open>newScope\<close>. A scope without the
  substring \<^verbatim>\<open>repository:\<close> is forwarded as it is; in a scope with one, only the first
  occurrence (the one with no occurrence starting before it) becomes
  \<^verbatim>\<open>repository:<repoPrefix>/\<close>, the text before and after it staying as it is.
\<close>

theorem scope_rewritten_and_forwarded:
  assumes "values_Get (url_Query (url_RawQuery (req_URL r))) ''scope'' = scope"
      and "scope \<noteq> []"
      and "url_Parse tokenEndpoint = Some u"
  shows "\<exists>newScope.
           tokenProxyHandler url_Query values_Encode url_Parse tokenEndpoint prefix' r
             = Inr (r\<lparr>req_URL :=
                        u\<lparr>url_RawQuery :=
                            values_Encode
                              ((url_Query (url_RawQuery (req_URL r)))(''scope'' \<mapsto> [newScope]))\<rparr>,
                      req_Host := url_Host u\<rparr>)
         \<and> (\<not> sublist ''repository:'' scope \<longrightarrow> newScope = scope)
         \<and> (\<forall>a b. scope = a @ ''repository:'' @ b
                    \<and> \<not> sublist ''repository:'' (a @ ''repository'')
                \<longrightarrow> newScope = a @ ''repository:'' @ prefix' @ ''/'' @ b)"
proof -
  let ?new = "strings_Replace1 scope ''repository:'' (''repository:'' @ prefix' @ ''/'')"
  have run: "tokenProxyHandler url_Query values_Encode url_Parse tokenEndpoint prefix' r
             = Inr (r\<lparr>req_URL :=
                        u\<lparr>url_RawQuery :=
                            values_Encode
                              ((url_Query (url_RawQuery (req_URL r)))(''scope'' \<mapsto> [?new]))\<rparr>,
                      req_Host := url_Host u\<rparr>)"
    using assms by (simp add: tokenProxyHandler_def Let_def values_Set_def)
  have absent: "\<not> sublist ''repository:'' scope \<longrightarrow> ?new = scope"
    by (simp add: strings_Replace1_absent)
  have first: "?new = a @ ''repository:'' @ prefix' @ ''/'' @ b"
    if "scope = a @ ''repository:'' @ b" and "\<not> sublist ''repository:'' (a @ ''repository'')"
    for a b
  proof -
    have "\<not> sublist ''repository:'' (a @ butlast ''repository:'')"
      using that(2) by simp
    from strings_Replace1_first [OF _ this, of b "''repository:'' @ prefix' @ ''/''"]
    show ?thesis
      unfolding that(1) by simp
  qed
  from run absent first show ?thesis by blast
qed

theorem scope_rewritten_and_forwarded_witness:
  "values_Get (sample_Query (url_RawQuery (req_URL
       (sample_request ''/_token'' ''scope=repository:foo/bar:pull'' [])))) ''scope''
     = ''repository:foo/bar:pull''
   \<and> ''repository:foo/bar:pull'' \<noteq> []
   \<and> sample_Parse ''https://auth.example.com/token''
       = Some \<lparr>url_Scheme = ''https'', url_Host = ''auth.example.com'',
                url_Path = ''/token'', url_RawQuery = []\<rparr>
   \<and> tokenProxyHandler sample_Query sample_Encode sample_Parse
         ''https://auth.example.com/token'' ''myproject''
         (sample_request ''/_token'' ''scope=repository:foo/bar:pull'' [])
       = Inr \<lparr>req_Host = ''auth.example.com'',
              req_URL = \<lparr>url_Scheme = ''https'', url_Host = ''auth.example.com'',
                         url_Path = ''/token'',
                         url_RawQuery = ''scope=repository:myproject/foo/bar:pull''\<rparr>,
              req_Header = Map.empty,
              req_ctxOriginalHost = Some ''myproxy.example.org''\<rparr>"
proof -
  let ?r = "sample_request ''/_token'' ''scope=repository:foo/bar:pull'' []"
  let ?u = "\<lparr>url_Scheme = ''https'', url_Host = ''auth.example.com'',
             url_Path = ''/token'', url_RawQuery = []\<rparr>"
  have a: "values_Get (sample_Query (url_RawQuery (req_URL ?r))) ''scope''
             = ''repository:foo/bar:pull''"
    by (simp add: sample_Query_def sample_request_def values_Get_def)
  have b: "''repository:foo/bar:pull'' \<noteq> []" by simp
  have c: "sample_Parse ''https://auth.example.com/token'' = Some ?u"
    by (simp add: sample_Parse_def)
  from scope_rewritten_and_forwarded
         [where url_Query = sample_Query and url_Parse = sample_Parse
            and values_Encode = sample_Encode and prefix' = "''myproject''", OF a b c]
  obtain newScope where
    run: "tokenProxyHandler sample_Query sample_Encode sample_Parse
            ''https://auth.example.com/token'' ''myproject'' ?r
          = Inr (?r\<lparr>req_URL :=
                     ?u\<lparr>url_RawQuery :=
                          sample_Encode
                            ((sample_Query (url_RawQuery (req_URL ?r)))(''scope'' \<mapsto> [newScope]))\<rparr>,
                   req_Host := url_Host ?u\<rparr>)"
    and first: "\<forall>a b. ''repository:foo/bar:pull'' = a @ ''repository:'' @ b
                    \<and> \<not> sublist ''repository:'' (a @ ''repository'')
                \<longrightarrow> newScope = a @ ''repository:'' @ ''myproject'' @ ''/'' @ b"
    by blast
  have "\<not> sublist ''repository:'' ([] @ ''repository'')"
    using sublist_length_le [of "''repository:''" "''repository''"] by auto
  with first [rule_format, of "[]" "''foo/bar:pull''"]
  have "newScope = ''repository:myproject/foo/bar:pull''"
    by simp
  with run a b c show ?thesis
    by (simp add: sample_Encode_def sample_request_def values_Get_def)
qed

subsection \<open>Discovery of the token endpoint\<close>

lemma quoted_value_Some_iff:
  "quoted_value s = Some (g, r)
     \<longleftrightarrow> s = g @ dquote # r \<and> dquote \<notin> set g \<and> newline \<notin> set g"
proof (induction s arbitrary: g)
  case Nil
  then show ?case by simp
next
  case (Cons c cs)
  show ?case
  proof (cases "c = dquote")
    case True
    then show ?thesis by (cases g) auto
  next
    case False
    then show ?thesis
      using Cons.IH by (cases g) auto
  qed
qed

lemma quoted_value_closed:
  "newline \<notin> set g \<Longrightarrow> \<exists>g' r'. quoted_value (g @ dquote # r) = Some (g', r')"
  by (induction g) auto

lemma realm_match_here_Some_iff:
  "realm_match_here s = Some (g, r)
     \<longleftrightarrow> s = realm_open @ g @ dquote # r \<and> dquote \<notin> set g \<and> newline \<notin> set g"
  by (auto simp: realm_match_here_def quoted_value_Some_iff prefix_def)

lemma realm_find_Some:
  "realm_find s = Some (a, g, b)
     \<Longrightarrow> s = a @ realm_open @ g @ dquote # b \<and> dquote \<notin> set g \<and> newline \<notin> set g"
proof (induction s arbitrary: a)
  case Nil
  then show ?case by simp
next
  case (Cons c cs)
  show ?case
  proof (cases "realm_match_here (c # cs)")
    case None
    with Cons.prems obtain a' where "realm_find cs = Some (a', g, b)" and "a = c # a'"
      by auto
    with Cons.IH show ?thesis by simp
  next
    case (Some m)
    with Cons.prems have "realm_match_here (c # cs) = Some (g, b)" and "a = []"
      by (cases m; auto)+
    then show ?thesis by (simp add: realm_match_here_Some_iff)
  qed
qed

lemma realm_find_leftmost:
  assumes "s = a @ realm_open @ g @ dquote # b" and "newline \<notin> set g"
  shows "\<exists>a' g' b'. realm_find s = Some (a', g', b') \<and> length a' \<le> length a"
  using assms(1)
proof (induction a arbitrary: s)
  case Nil
  from quoted_value_closed [OF assms(2)] obtain g' r'
    where "quoted_value (g @ dquote # b) = Some (g', r')" by blast
  then have "realm_match_here s = Some (g', r')"
    using Nil by (simp add: realm_match_here_def)
  moreover have "s \<noteq> []" using Nil by (simp add: realm_open_def)
  ultimately show ?case by (cases s) auto
next
  case (Cons x a)
  then obtain a' g' b' where f: "realm_find (a @ realm_open @ g @ dquote # b) = Some (a', g', b')"
    and le: "length a' \<le> length a" by blast
  show ?case
  proof (cases "realm_match_here s")
    case None
    then show ?thesis using Cons.prems f le by auto
  next
    case (Some m)
    then show ?thesis using Cons.prems by (cases m) auto
  qed
qed

lemma realm_find_None_iff:
  "realm_find s = None
     \<longleftrightarrow> \<not> (\<exists>a g b. s = a @ realm_open @ g @ dquote # b \<and> newline \<notin> set g)"
proof
  assume n: "realm_find s = None"
  show "\<not> (\<exists>a g b. s = a @ realm_open @ g @ dquote # b \<and> newline \<notin> set g)"
  proof
    assume "\<exists>a g b. s = a @ realm_open @ g @ dquote # b \<and> newline \<notin> set g"
    then obtain a g b where "s = a @ realm_open @ g @ dquote # b" "newline \<notin> set g" by blast
    from realm_find_leftmost [OF this] n show False by auto
  qed
next
  assume n: "\<not> (\<exists>a g b. s = a @ realm_open @ g @ dquote # b \<and> newline \<notin> set g)"
  show "realm_find s = None"
  proof (cases "realm_find s")
    case None
    then show ?thesis .
  next
    case (Some m)
    obtain a g b where "m = (a, g, b)" by (cases m) auto
    with Some realm_find_Some [of s a g b] n show ?thesis by blast
  qed
qed

text \<open>
  C6. For a response \<open>resp\<close> to the \<^verbatim>\<open>GET /v2/\<close> of discovery: discovery returns an error
  exactly when \<open>resp\<close> has no \<open>WWW-Authenticate\<close> value, or the value has no
  \<^verbatim>\<open>realm="..."\<close> (no place where \<^verbatim>\<open>realm="\<close> is followed by a double quote on the same
  line); on such an error \<open>main\<close> ends with \<^verbatim>\<open>log.Fatal\<close> before it listens (by this
  error when the three required variables are set, by an earlier one otherwise); and an
  endpoint that discovery returns is the text between the quotes of the leftmost
  \<^verbatim>\<open>realm="..."\<close> of the value.
\<close>

theorem discovery_error_iff:
  "((\<exists>e. discoverTokenService (Inr resp) = Inl e)
      \<longleftrightarrow> (resp_Header resp ''Www-Authenticate'' = None
           \<or> resp_Header resp ''Www-Authenticate'' = Some [])
         \<or> \<not> (\<exists>a g b. www_authenticate resp = a @ realm_open @ g @ dquote # b
                      \<and> newline \<notin> set g))
   \<and> (\<forall>e. http_Get (''https://'' @ env ''REGISTRY_HOST'' @ ''/v2/'') = Inr resp
            \<and> discoverTokenService (Inr resp) = Inl e
          \<longrightarrow> (\<exists>f. main env http_Get metadata readFile base64 = Inl f)
            \<and> (env ''PORT'' \<noteq> [] \<and> env ''REGISTRY_HOST'' \<noteq> [] \<and> env ''REPO_PREFIX'' \<noteq> []
                 \<longrightarrow> main env http_Get metadata readFile base64 = Inl (DiscoveryFailed e)))
   \<and> (\<forall>endpoint. discoverTokenService (Inr resp) = Inr endpoint
        \<longrightarrow> (\<exists>a b. www_authenticate resp = a @ realm_open @ endpoint @ dquote # b
                  \<and> dquote \<notin> set endpoint \<and> newline \<notin> set endpoint
                  \<and> (\<forall>a' g' b'. www_authenticate resp = a' @ realm_open @ g' @ dquote # b'
                                  \<and> newline \<notin> set g'
                        \<longrightarrow> length a \<le> length a')))"
proof (intro conjI allI impI)
  let ?hdr = "www_authenticate resp"
  have lacks: "?hdr = []"
    if "resp_Header resp ''Www-Authenticate'' = None
        \<or> resp_Header resp ''Www-Authenticate'' = Some []"
    using that by (auto simp: header_Get_def)
  have err: "(\<exists>e. discoverTokenService (Inr resp) = Inl e)
               \<longleftrightarrow> ?hdr = [] \<or> realm_find ?hdr = None"
    by (auto simp: discoverTokenService_def Let_def split: option.splits)
  have empty: "realm_find [] = None" by simp
  show "(\<exists>e. discoverTokenService (Inr resp) = Inl e)
      \<longleftrightarrow> (resp_Header resp ''Www-Authenticate'' = None
           \<or> resp_Header resp ''Www-Authenticate'' = Some [])
         \<or> \<not> (\<exists>a g b. ?hdr = a @ realm_open @ g @ dquote # b \<and> newline \<notin> set g)"
    unfolding err using lacks empty realm_find_None_iff [of ?hdr] by metis
next
  fix e
  assume "http_Get (''https://'' @ env ''REGISTRY_HOST'' @ ''/v2/'') = Inr resp
          \<and> discoverTokenService (Inr resp) = Inl e"
  then show "\<exists>f. main env http_Get metadata readFile base64 = Inl f"
    by (auto simp: main_def Let_def)
next
  fix e
  assume "http_Get (''https://'' @ env ''REGISTRY_HOST'' @ ''/v2/'') = Inr resp
          \<and> discoverTokenService (Inr resp) = Inl e"
    and "env ''PORT'' \<noteq> [] \<and> env ''REGISTRY_HOST'' \<noteq> [] \<and> env ''REPO_PREFIX'' \<noteq> []"
  then show "main env http_Get metadata readFile base64 = Inl (DiscoveryFailed e)"
    by (auto simp: main_def Let_def)
next
  fix endpoint
  let ?hdr = "www_authenticate resp"
  assume "discoverTokenService (Inr resp) = Inr endpoint"
  then obtain a b where f: "realm_find ?hdr = Some (a, endpoint, b)"
    by (auto simp: discoverTokenService_def Let_def split: if_splits option.splits)
  from realm_find_Some [OF f]
  have dec: "?hdr = a @ realm_open @ endpoint @ dquote # b"
    and q: "dquote \<notin> set endpoint" and n: "newline \<notin> set endpoint"
    by blast+
  have "length a \<le> length a'"
    if "?hdr = a' @ realm_open @ g' @ dquote # b' \<and> newline \<notin> set g'" for a' g' b'
  proof -
    from that realm_find_leftmost [of ?hdr a' g' b'] f show ?thesis by auto
  qed
  with dec q n
  show "\<exists>a b. ?hdr = a @ realm_open @ endpoint @ dquote # b
             \<and> dquote \<notin> set endpoint \<and> newline \<notin> set endpoint
             \<and> (\<forall>a' g' b'. ?hdr = a' @ realm_open @ g' @ dquote # b' \<and> newline \<notin> set g'
                   \<longrightarrow> length a \<le> length a')"
    by blast
qed

lemma sample_challenge_find:
  "realm_find sample_challenge
     = Some (''Bearer '', ''https://auth.example.com/token'',
             '',service='' @ [dquote] @ ''r'' @ [dquote])"
  by (simp add: sample_challenge_def realm_match_here_def realm_open_def)

theorem discovery_error_iff_witness:
  "(\<exists>e. discoverTokenService (Inr (sample_response None)) = Inl e)
   \<and> main sample_env (\<lambda>u. Inr (sample_response None)) None (\<lambda>p. None) (\<lambda>s. s)
       = Inl (DiscoveryFailed NoHeader)
   \<and> discoverTokenService (Inr (sample_response (Some [sample_challenge])))
       = Inr ''https://auth.example.com/token''
   \<and> (\<exists>a b. www_authenticate (sample_response (Some [sample_challenge]))
              = a @ realm_open @ ''https://auth.example.com/token'' @ dquote # b)"
proof -
  let ?get = "\<lambda>u :: string. (Inr (sample_response None) :: string + response)"
  note bad = discovery_error_iff
               [of "sample_response None" ?get sample_env None "\<lambda>p. None" "\<lambda>s. s"]
  note good = discovery_error_iff
                [of "sample_response (Some [sample_challenge])" ?get sample_env None
                    "\<lambda>p. None" "\<lambda>s. s"]
  have none: "resp_Header (sample_response None) ''Www-Authenticate'' = None"
    by (simp add: sample_response_def)
  from bad none have e: "\<exists>e. discoverTokenService (Inr (sample_response None)) = Inl e"
    by blast
  have e': "discoverTokenService (Inr (sample_response None)) = Inl NoHeader"
    by (simp add: discoverTokenService_def sample_response_def header_Get_def)
  have vars: "sample_env ''PORT'' \<noteq> [] \<and> sample_env ''REGISTRY_HOST'' \<noteq> []
              \<and> sample_env ''REPO_PREFIX'' \<noteq> []"
    by (simp add: sample_env_def)
  from bad e' vars
  have f: "main sample_env ?get None (\<lambda>p. None) (\<lambda>s. s) = Inl (DiscoveryFailed NoHeader)"
    by blast
  have d: "discoverTokenService (Inr (sample_response (Some [sample_challenge])))
             = Inr ''https://auth.example.com/token''"
    by (simp add: discoverTokenService_def sample_response_def header_Get_def
          sample_challenge_find)
       (simp add: sample_challenge_def)
  from good d
  have "\<exists>a b. www_authenticate (sample_response (Some [sample_challenge]))
              = a @ realm_open @ ''https://auth.example.com/token'' @ dquote # b"
    by blast
  with e f d show ?thesis by blast
qed

subsection \<open>The registry path rewriter\<close>

text \<open>
  With a prefix that has no dollar sign the template is the replacement itself: host,
  scheme and URL host are the upstream's, the query is untouched, \<open>/v2/\<close> stays and
  \<open>/v2/<rest>\<close> becomes \<open>/v2/<repoPrefix>/<rest>\<close>.
\<close>

lemma rewriteRegistryV2URL_literal:
  assumes "dollar \<notin> set (repoPrefix c)"
  shows "req_Host (rewriteRegistryV2URL c req) = host c
       \<and> url_Host (req_URL (rewriteRegistryV2URL c req)) = host c
       \<and> url_Scheme (req_URL (rewriteRegistryV2URL c req)) = ''https''
       \<and> url_RawQuery (req_URL (rewriteRegistryV2URL c req)) = url_RawQuery (req_URL req)
       \<and> (url_Path (req_URL req) = ''/v2/''
            \<longrightarrow> url_Path (req_URL (rewriteRegistryV2URL c req)) = ''/v2/'')
       \<and> (\<forall>rest. url_Path (req_URL req) = ''/v2/'' @ rest \<and> rest \<noteq> []
            \<longrightarrow> url_Path (req_URL (rewriteRegistryV2URL c req))
                = ''/v2/'' @ repoPrefix c @ ''/'' @ rest)"
proof -
  have "dollar \<notin> set (''/v2/'' @ repoPrefix c @ ''/'')"
    using assms by simp
  then have e: "expand [''/v2/''] (''/v2/'' @ repoPrefix c @ ''/'') = ''/v2/'' @ repoPrefix c @ ''/''"
    by (rule expand_no_dollar)
  show ?thesis
    using e by (auto simp: rewriteRegistryV2URL_def Let_def re_ReplaceAllString_def)
qed

text \<open>
  C1 fails on the program for a prefix with a dollar sign. The prefix is written into
  the replacement template of \<^verbatim>\<open>ReplaceAllString\<close>, which expands \<^verbatim>\<open>$project\<close> as a
  reference to a group the expression does not have, that is, to nothing: with
  \<^verbatim>\<open>REPO_PREFIX=my$project\<close> the path \<open>/v2/foo\<close> is rewritten to \<open>/v2/my/foo\<close>, not to
  \<open>/v2/my$project/foo\<close>. (The token proxy inserts the same prefix with
  \<^verbatim>\<open>strings.Replace\<close>, literally.)
\<close>

theorem rewrite_path_dollar_prefix:
  "url_Path (req_URL (rewriteRegistryV2URL \<lparr>host = ''gcr.io'', repoPrefix = ''my$project''\<rparr>
                        (sample_request ''/v2/foo'' [] [])))
     = ''/v2/my/foo''
   \<and> ''/v2/my/foo'' \<noteq> ''/v2/'' @ ''my$project'' @ ''/'' @ ''foo''"
  by (simp add: rewriteRegistryV2URL_def sample_request_def re_ReplaceAllString_def
        expand.simps extract_name_def is_name_char_def Let_def)

subsection \<open>The token proxy and a request without a scope\<close>

text \<open>
  C4 fails on the program. For a request without a \<open>scope\<close> parameter the director
  returns before it sets the URL and the Host: the request stays as it came in, with the
  proxy's own Host and a URL without scheme and host, and does not go to the token
  endpoint (whose host is \<open>auth.example.com\<close> here). Only its query is as the claim
  says, unchanged.
\<close>

theorem no_scope_not_forwarded:
  "tokenProxyHandler sample_Query sample_Encode sample_Parse
     ''https://auth.example.com/token'' ''myproject''
     (sample_request ''/_token'' ''service=gcr.io'' [])
     = Inr \<lparr>req_Host = ''myproxy.example.org'',
            req_URL = \<lparr>url_Scheme = [], url_Host = [], url_Path = ''/_token'',
                       url_RawQuery = ''service=gcr.io''\<rparr>,
            req_Header = Map.empty,
            req_ctxOriginalHost = Some ''myproxy.example.org''\<rparr>
   \<and> map_option url_Host (sample_Parse ''https://auth.example.com/token'')
       = Some ''auth.example.com''"
  by (simp add: tokenProxyHandler_def sample_Query_def sample_request_def sample_Parse_def
        values_Get_def)

subsection \<open>The response realm rewriter\<close>

lemma quoted_value_None_tail:
  "quoted_value (w @ dquote # z) = None \<longleftrightarrow> quoted_value (w @ dquote # z') = None"
  by (induction w) auto

lemma realm_open_no_overlap:
  assumes "prefix realm_open (x @ realm_open @ y)" and "x \<noteq> []"
  shows "prefix realm_open x"
proof (cases "length realm_open \<le> length x")
  case True
  with assms(1) show ?thesis by (rule prefix_within)
next
  case False
  then have k: "length x \<le> 6" by (simp add: realm_open_def)
  from assms(1) obtain z where eq: "x @ realm_open @ y = realm_open @ z"
    by (auto simp: prefix_def)
  have len: "length realm_open = 7" by (simp add: realm_open_def)
  have nth_x: "(x @ realm_open @ y) ! 6 = realm_open ! (6 - length x)"
  proof -
    have "6 - length x < length realm_open" using len by arith
    moreover have "\<not> 6 < length x" using k by arith
    ultimately show ?thesis by (simp add: nth_append)
  qed
  have nth_z: "(realm_open @ z) ! 6 = dquote"
    by (simp add: realm_open_def)
  have letters: "realm_open ! n \<noteq> dquote" if "n < 6" for n
  proof -
    from that have "n = 0 \<or> n = 1 \<or> n = 2 \<or> n = 3 \<or> n = 4 \<or> n = 5" by arith
    then show ?thesis by (auto simp: realm_open_def)
  qed
  have "realm_open ! (6 - length x) = dquote"
    using nth_x nth_z by (simp only: eq)
  moreover have "6 - length x < 6"
    using assms(2) by (cases x) simp_all
  ultimately have False
    using letters by blast
  then show ?thesis ..
qed

lemma realm_match_here_None_tail:
  assumes "realm_match_here (x @ realm_open @ g @ dquote # rest) = None" and "x \<noteq> []"
  shows "realm_match_here (x @ realm_open @ g' @ dquote # t) = None"
proof (cases "prefix realm_open x")
  case False
  with realm_open_no_overlap [of x "g' @ dquote # t"] assms(2)
  have "\<not> prefix realm_open (x @ realm_open @ g' @ dquote # t)" by blast
  then show ?thesis by (simp add: realm_match_here_def)
next
  case True
  then obtain us where x: "x = realm_open @ us" by (auto simp: prefix_def)
  have ro: "realm_open = ''realm='' @ [dquote]" by (simp add: realm_open_def)
  from assms(1) have "quoted_value ((us @ ''realm='') @ dquote # (g @ dquote # rest)) = None"
    unfolding x realm_match_here_def by (simp add: ro)
  then have "quoted_value ((us @ ''realm='') @ dquote # (g' @ dquote # t)) = None"
    using quoted_value_None_tail by blast
  then show ?thesis
    unfolding x realm_match_here_def by (simp add: ro)
qed


lemma realm_find_after_replace:
  assumes "realm_find v = Some (a, g, b)" and "dquote \<notin> set g'" and "newline \<notin> set g'"
  shows "realm_find (a @ realm_open @ g' @ dquote # t) = Some (a, g', t)"
  using assms(1)
proof (induction v arbitrary: a)
  case Nil
  then show ?case by simp
next
  case (Cons c cs)
  show ?case
  proof (cases "realm_match_here (c # cs)")
    case (Some m)
    with Cons.prems have "a = []" by (cases m) auto
    moreover have "realm_match_here (realm_open @ g' @ dquote # t) = Some (g', t)"
      using assms(2,3) by (simp add: realm_match_here_Some_iff)
    moreover have "realm_open @ g' @ dquote # t = CHR ''r'' # ''ealm='' @ dquote # g' @ dquote # t"
      by (simp add: realm_open_def)
    ultimately show ?thesis
      by (metis (no_types, lifting) append_Nil option.simps(5) realm_find.simps(2) case_prod_conv)
  next
    case None
    with Cons.prems obtain a' where f: "realm_find cs = Some (a', g, b)" and a: "a = c # a'"
      by auto
    from realm_find_Some [OF f] have cs: "cs = a' @ realm_open @ g @ dquote # b" by simp
    from None have "realm_match_here ((c # a') @ realm_open @ g @ dquote # b) = None"
      by (simp add: cs)
    then have "realm_match_here ((c # a') @ realm_open @ g' @ dquote # t) = None"
      by (rule realm_match_here_None_tail) simp
    with Cons.IH [OF f] show ?thesis
      by (simp add: a)
  qed
qed

lemma realm_ReplaceAllString_literal:
  assumes "dollar \<notin> set repl"
  shows "realm_ReplaceAllString src repl =
           (case realm_find src of
              None \<Rightarrow> src
            | Some (a, g, b) \<Rightarrow> a @ repl @ realm_ReplaceAllString b repl)"
  by (subst realm_ReplaceAllString.simps)
     (simp add: expand_no_dollar [OF assms] split: option.splits)

lemma realm_ReplaceAllString_idem:
  assumes "dollar \<notin> set g'" and "dquote \<notin> set g'" and "newline \<notin> set g'"
  shows "realm_ReplaceAllString (realm_ReplaceAllString v (realm_open @ g' @ [dquote]))
           (realm_open @ g' @ [dquote])
         = realm_ReplaceAllString v (realm_open @ g' @ [dquote])"
proof -
  let ?repl = "realm_open @ g' @ [dquote]"
  have nd: "dollar \<notin> set ?repl"
    using assms(1) by (simp add: realm_open_def)
  show ?thesis
  proof (induction v rule: length_induct)
    case (1 v)
    show ?case
    proof (cases "realm_find v")
      case None
      then have "realm_ReplaceAllString v ?repl = v"
        by (simp add: realm_ReplaceAllString_literal [OF nd])
      then show ?thesis by simp
    next
      case (Some m)
      obtain a g b where m: "m = (a, g, b)" by (cases m) auto
      have f: "realm_find v = Some (a, g, b)" using Some m by simp
      let ?t = "realm_ReplaceAllString b ?repl"
      have once: "realm_ReplaceAllString v ?repl = a @ ?repl @ ?t"
        using f by (simp add: realm_ReplaceAllString_literal [OF nd])
      have "length b < length v"
        using f by (rule realm_find_rest_length)
      with 1 have ih: "realm_ReplaceAllString ?t ?repl = ?t" by blast
      have "realm_find (a @ ?repl @ ?t) = Some (a, g', ?t)"
        using realm_find_after_replace [OF f assms(2,3), of ?t] by simp
      then have "realm_ReplaceAllString (a @ ?repl @ ?t) ?repl
                   = a @ ?repl @ realm_ReplaceAllString ?t ?repl"
        by (simp add: realm_ReplaceAllString_literal [OF nd])
      with ih once show ?thesis by simp
    qed
  qed
qed

lemma quoted_value_newline:
  "newline \<in> set g \<Longrightarrow> dquote \<notin> set g \<Longrightarrow> quoted_value (g @ z) = None"
  by (induction g) auto

lemma realm_match_here_needs_quote:
  assumes "dquote \<notin> set w" and "7 \<le> length w"
  shows "realm_match_here (w @ z) = None"
proof -
  have "\<not> prefix realm_open (w @ z)"
  proof
    assume "prefix realm_open (w @ z)"
    then have "prefix realm_open w"
      by (rule prefix_within) (use assms(2) in \<open>simp add: realm_open_def\<close>)
    then obtain us where "w = realm_open @ us" by (auto simp: prefix_def)
    with assms(1) show False by (simp add: realm_open_def)
  qed
  then show ?thesis by (simp add: realm_match_here_def)
qed

lemma realm_find_token_tail:
  assumes "dquote \<notin> set h" and "realm_find t = None"
  shows "realm_find (h @ ''/_token'' @ dquote # t) = None"
  using assms(1)
proof (induction h)
  case Nil
  show ?case
    using assms(2) by (simp add: realm_match_here_def realm_open_def)
next
  case (Cons c h)
  have "realm_match_here ((c # h @ ''/_token'') @ dquote # t) = None"
    by (rule realm_match_here_needs_quote) (use Cons.prems in auto)
  with Cons show ?case by simp
qed

lemma realm_find_unmatched_template:
  assumes "dquote \<notin> set h" and "newline \<in> set h" and "realm_find t = None"
  shows "realm_find (realm_template h @ t) = None"
proof -
  have q: "quoted_value ((''https://'' @ h @ ''/_token'') @ dquote # t) = None"
    by (rule quoted_value_newline) (use assms(1,2) in auto)
  have tail: "realm_find (h @ ''/_token'' @ dquote # t) = None"
    using assms(1,3) by (rule realm_find_token_tail)
  show ?thesis
    using q tail
    by (simp add: realm_template_def realm_open_def realm_match_here_def)
qed

lemma realm_find_after_unmatched:
  assumes "realm_find v = Some (a, g, b)" and "realm_find (realm_template h @ t) = None"
  shows "realm_find (a @ realm_template h @ t) = None"
  using assms(1)
proof (induction v arbitrary: a)
  case Nil
  then show ?case by simp
next
  case (Cons c cs)
  show ?case
  proof (cases "realm_match_here (c # cs)")
    case (Some m)
    with Cons.prems have "a = []" by (cases m) auto
    with assms(2) show ?thesis by simp
  next
    case None
    with Cons.prems obtain a' where f: "realm_find cs = Some (a', g, b)" and a: "a = c # a'"
      by auto
    from realm_find_Some [OF f] have cs: "cs = a' @ realm_open @ g @ dquote # b" by simp
    from None have "realm_match_here ((c # a') @ realm_open @ g @ dquote # b) = None"
      by (simp add: cs)
    then have "realm_match_here
                 ((c # a') @ realm_open @ (''https://'' @ h @ ''/_token'') @ dquote # t) = None"
      by (rule realm_match_here_None_tail) simp
    then have "realm_match_here (c # a' @ realm_template h @ t) = None"
      by (simp add: realm_template_def)
    with Cons.IH [OF f] show ?thesis
      by (simp add: a)
  qed
qed

lemma realm_template_no_dollar: "dollar \<notin> set h \<Longrightarrow> dollar \<notin> set (realm_template h)"
  by (simp add: realm_template_def realm_open_def)

lemma realm_rewrite_unmatched:
  assumes "dollar \<notin> set h" and "dquote \<notin> set h" and "newline \<in> set h"
  shows "realm_find (realm_ReplaceAllString v (realm_template h)) = None"
proof (induction v rule: length_induct)
  case (1 v)
  note nd = realm_template_no_dollar [OF assms(1)]
  show ?case
  proof (cases "realm_find v")
    case None
    then show ?thesis
      by (simp add: realm_ReplaceAllString_literal [OF nd])
  next
    case (Some m)
    obtain a g b where m: "m = (a, g, b)" by (cases m) auto
    have f: "realm_find v = Some (a, g, b)" using Some m by simp
    let ?t = "realm_ReplaceAllString b (realm_template h)"
    have "length b < length v"
      using f by (rule realm_find_rest_length)
    with 1 have "realm_find ?t = None" by blast
    with assms(2,3) have "realm_find (realm_template h @ ?t) = None"
      by (rule realm_find_unmatched_template)
    with f have "realm_find (a @ realm_template h @ ?t) = None"
      by (rule realm_find_after_unmatched)
    then show ?thesis
      using f by (simp add: realm_ReplaceAllString_literal [OF nd])
  qed
qed

lemma realm_rewrite_idem:
  assumes "dollar \<notin> set h" and "dquote \<notin> set h"
  shows "realm_ReplaceAllString (realm_ReplaceAllString v (realm_template h)) (realm_template h)
         = realm_ReplaceAllString v (realm_template h)"
proof (cases "newline \<in> set h")
  case True
  with assms have "realm_find (realm_ReplaceAllString v (realm_template h)) = None"
    by (rule realm_rewrite_unmatched)
  then show ?thesis
    by (simp add: realm_ReplaceAllString_literal [OF realm_template_no_dollar [OF assms(1)]])
next
  case False
  have "realm_template h = realm_open @ (''https://'' @ h @ ''/_token'') @ [dquote]"
    by (simp add: realm_template_def)
  moreover have "dollar \<notin> set (''https://'' @ h @ ''/_token'')"
    and "dquote \<notin> set (''https://'' @ h @ ''/_token'')"
    and "newline \<notin> set (''https://'' @ h @ ''/_token'')"
    using assms False by auto
  ultimately show ?thesis
    using realm_ReplaceAllString_idem [of "''https://'' @ h @ ''/_token''" v] by simp
qed

lemma header_Get_Set: "header_Get (header_Set hdrs key v) key = v"
  by (simp add: header_Get_def header_Set_def)

lemma updateTokenEndpoint_literal:
  assumes "dollar \<notin> set h"
  shows "(www_authenticate resp = [] \<longrightarrow> updateTokenEndpoint resp h = resp)
       \<and> (realm_find (www_authenticate resp) = None
            \<longrightarrow> www_authenticate (updateTokenEndpoint resp h) = www_authenticate resp)
       \<and> (\<forall>a g b. realm_find (www_authenticate resp) = Some (a, g, b)
            \<longrightarrow> www_authenticate (updateTokenEndpoint resp h)
                = a @ realm_open @ ''https://'' @ h @ ''/_token'' @ [dquote]
                  @ realm_ReplaceAllString b (realm_template h))"
proof -
  let ?v = "www_authenticate resp"
  note lit = realm_ReplaceAllString_literal [OF realm_template_no_dollar [OF assms]]
  have new: "www_authenticate (updateTokenEndpoint resp h)
               = realm_ReplaceAllString ?v (realm_template h)"
  proof (cases "?v = []")
    case True
    then have "realm_ReplaceAllString ?v (realm_template h) = []"
      by (simp add: lit)
    with True show ?thesis
      by (simp add: updateTokenEndpoint_def)
  next
    case False
    then show ?thesis
      by (simp add: updateTokenEndpoint_def header_Get_Set)
  qed
  have none: "realm_ReplaceAllString ?v (realm_template h) = ?v"
    if "realm_find ?v = None"
    using that by (simp add: lit)
  have some: "realm_ReplaceAllString ?v (realm_template h)
                = a @ realm_open @ ''https://'' @ h @ ''/_token'' @ [dquote]
                  @ realm_ReplaceAllString b (realm_template h)"
    if "realm_find ?v = Some (a, g, b)" for a g b
  proof -
    from that have "realm_ReplaceAllString ?v (realm_template h)
                      = a @ realm_template h @ realm_ReplaceAllString b (realm_template h)"
      by (simp add: lit)
    then show ?thesis
      by (simp add: realm_template_def)
  qed
  have early: "updateTokenEndpoint resp h = resp" if "?v = []"
    using that by (simp add: updateTokenEndpoint_def)
  from new none some early show ?thesis
    by simp
qed

lemmas eval_simps =
  updateTokenEndpoint_def sample_response_def sample_challenge_def header_Get_def header_Set_def
  realm_template_def realm_ReplaceAllString.simps realm_match_here_def realm_open_def
  expand.simps extract_name_def is_name_char_def Let_def

text \<open>
  C2 fails on the program for an original host with a dollar sign. The host is written
  into the replacement template, and \<^verbatim>\<open>$1\<close> in it is expanded to the realm the upstream
  sent: for the request host \<^verbatim>\<open>$1\<close> the realm becomes
  \<^verbatim>\<open>https://https://auth.example.com/token/_token\<close>, not \<^verbatim>\<open>https://$1/_token\<close>.
  (\<open>updateTokenEndpoint_literal\<close> above is the claim for hosts without a dollar sign.)
\<close>

theorem realm_rewrite_dollar_host:
  "www_authenticate (updateTokenEndpoint (sample_response (Some [sample_challenge])) ''$1'')
     = ''Bearer realm='' @ [dquote] @ ''https://https://auth.example.com/token/_token'' @ [dquote]
       @ '',service='' @ [dquote] @ ''r'' @ [dquote]"
  by (simp add: eval_simps)

text \<open>
  C8, as stated for every host, fails: rewriting twice differs from rewriting once for
  the host \<^verbatim>\<open>$1\<close> (the second pass expands \<^verbatim>\<open>$1\<close> to the realm the first pass wrote) and
  for the host \<^verbatim>\<open>a"b\<close> (the second pass matches up to the quote inside the host and
  leaves the rest of the first replacement behind).
\<close>

theorem realm_rewrite_not_idempotent:
  "www_authenticate
     (updateTokenEndpoint (updateTokenEndpoint (sample_response (Some [sample_challenge])) ''$1'')
        ''$1'')
     \<noteq> www_authenticate
         (updateTokenEndpoint (sample_response (Some [sample_challenge])) ''$1'')
   \<and> www_authenticate
       (updateTokenEndpoint
          (updateTokenEndpoint (sample_response (Some [sample_challenge]))
             (''a'' @ [dquote] @ ''b''))
          (''a'' @ [dquote] @ ''b''))
     \<noteq> www_authenticate
         (updateTokenEndpoint (sample_response (Some [sample_challenge]))
            (''a'' @ [dquote] @ ''b''))"
  by (simp add: eval_simps)

text \<open>
  C8, amended: for every header value \<open>v\<close> and every original host \<open>h\<close> with neither a
  dollar sign nor a double quote, rewriting the rewritten value again with \<open>h\<close> gives
  the same value, and applying \<^verbatim>\<open>updateTokenEndpoint\<close> twice gives the same response as
  applying it once.
\<close>

theorem realm_rewrite_idempotent:
  assumes "dollar \<notin> set h" and "dquote \<notin> set h"
  shows "realm_ReplaceAllString (realm_ReplaceAllString v (realm_template h)) (realm_template h)
           = realm_ReplaceAllString v (realm_template h)
       \<and> updateTokenEndpoint (updateTokenEndpoint resp h) h = updateTokenEndpoint resp h"
proof
  show "realm_ReplaceAllString (realm_ReplaceAllString v (realm_template h)) (realm_template h)
           = realm_ReplaceAllString v (realm_template h)"
    using assms by (rule realm_rewrite_idem)
next
  let ?v = "www_authenticate resp"
  let ?v' = "realm_ReplaceAllString ?v (realm_template h)"
  show "updateTokenEndpoint (updateTokenEndpoint resp h) h = updateTokenEndpoint resp h"
  proof (cases "?v = []")
    case True
    then show ?thesis by (simp add: updateTokenEndpoint_def)
  next
    case False
    have "realm_ReplaceAllString ?v' (realm_template h) = ?v'"
      using assms by (rule realm_rewrite_idem)
    with False show ?thesis
      by (simp add: updateTokenEndpoint_def Let_def header_Get_def header_Set_def)
  qed
qed

theorem realm_rewrite_idempotent_witness:
  "dollar \<notin> set ''myproxy.example.org'' \<and> dquote \<notin> set ''myproxy.example.org''
   \<and> updateTokenEndpoint
       (updateTokenEndpoint (sample_response (Some [sample_challenge])) ''myproxy.example.org'')
       ''myproxy.example.org''
     = updateTokenEndpoint (sample_response (Some [sample_challenge])) ''myproxy.example.org''
   \<and> www_authenticate
       (updateTokenEndpoint (sample_response (Some [sample_challenge])) ''myproxy.example.org'')
     = ''Bearer realm='' @ [dquote] @ ''https://myproxy.example.org/_token'' @ [dquote]
       @ '',service='' @ [dquote] @ ''r'' @ [dquote]"
proof -
  have a: "dollar \<notin> set ''myproxy.example.org''" by simp
  have b: "dquote \<notin> set ''myproxy.example.org''" by simp
  have once: "www_authenticate
       (updateTokenEndpoint (sample_response (Some [sample_challenge])) ''myproxy.example.org'')
     = ''Bearer realm='' @ [dquote] @ ''https://myproxy.example.org/_token'' @ [dquote]
       @ '',service='' @ [dquote] @ ''r'' @ [dquote]"
    by (simp add: eval_simps)
  from realm_rewrite_idempotent
         [OF a b, of sample_challenge "sample_response (Some [sample_challenge])"] a b once
  show ?thesis by blast
qed

end
